theory Spec2Isabelle
  imports Main
begin

section \<open>The object model of knvectis\<close>

text \<open>
  The Python program builds a hierarchy of mutable objects that point at each other: a
  container holds its children in \<^verbatim>\<open>metadata["children"]\<close>, a child holds a
  back-reference \<^verbatim>\<open>parent\<close>. The embedding uses an explicit store: an object is
  named by its address (Python's object identity), and every operator takes the store and
  returns the store it leaves behind, also when it raises.
\<close>

subsection \<open>Enumerations (\<^verbatim>\<open>_states.py\<close>)\<close>

datatype PruneFrom = FORWARD | BACKWARD

datatype PruneType = DISCARD | DESTROY

datatype NotifyMode = RAISE | CALL | SUPPRESS

subsection \<open>Objects, policies and the store\<close>

text \<open>The seven concrete subclasses of \<^verbatim>\<open>KObject\<close> in \<^verbatim>\<open>_objects.py\<close>.\<close>

datatype kind = Leaf | Branch | Tree | Node | Net | Layer | Matrix

type_synonym addr = nat

text \<open>
  The field \<^verbatim>\<open>data\<close> has type \<^verbatim>\<open>Any\<close>; only its \<^verbatim>\<open>str()\<close> is ever used by
  the code modelled here. \<open>PyNone\<close> is the default \<^verbatim>\<open>None\<close>, \<open>PyStr s\<close> a string.
\<close>

datatype pydata = PyNone | PyStr string

text \<open>
  One record for all seven classes. \<open>children\<close> is the entry
  \<^verbatim>\<open>metadata["children"]\<close>: \<open>None\<close> while the key is absent. \<open>data\<close> is read by
  Leaf, Branch, Tree and Node, \<open>name\<close> by Layer and Matrix, \<open>index\<close> by Net;
  \<open>retention\<close> is the address of the attached policy object (Leaf has no such field:
  it stays \<open>None\<close> there).
\<close>

record KObject =
  kind :: kind
  id_str :: string
  parent :: "addr option"
  children :: "addr list option"
  data :: pydata
  name :: string
  retention :: "addr option"
  index :: "(string \<times> addr) list"

text \<open>
  \<^verbatim>\<open>KRetentionPolicy\<close>. The callback is an arbitrary Python callable; it is modelled by
  a name, and a call of it is recorded in the store's trace \<open>calls\<close>.
\<close>

record KRetentionPolicy =
  max_size :: int
  prune_from :: PruneFrom
  prune_type :: PruneType
  notify :: NotifyMode
  callback :: "nat option"
  retained :: "addr list"

record heap =
  objs :: "addr \<Rightarrow> KObject"
  pols :: "addr \<Rightarrow> KRetentionPolicy"
  calls :: "(nat \<times> addr list) list"

text \<open>The exceptions the modelled code can raise.\<close>

datatype pyerr =
    TypeError kind kind
  | ValueError_parts
  | ValueError_removed nat
  | ValueError_not_in_list
  | AttributeError string

text \<open>A Python value passed to \<^verbatim>\<open>KRetentionPolicy.apply\<close>: an object or a list.\<close>

datatype pyval = PyObj addr | PyList "addr list"

subsection \<open>Python helpers\<close>

text \<open>\<^verbatim>\<open>xs[i:]\<close> and \<^verbatim>\<open>xs[:j]\<close> with Python's clamping of negative and large indices.\<close>

definition slice_from :: "'a list \<Rightarrow> int \<Rightarrow> 'a list" where
  "slice_from xs i =
     (let n = int (length xs);
          start = (if i < 0 then max (n + i) 0 else min i n)
      in drop (nat start) xs)"

definition slice_to :: "'a list \<Rightarrow> int \<Rightarrow> 'a list" where
  "slice_to xs j =
     (let n = int (length xs);
          stop = (if j < 0 then max (n + j) 0 else min j n)
      in take (nat stop) xs)"

text \<open>
  \<^verbatim>\<open>repr\<close> of a string, for ASCII strings: the quote is \<^verbatim>\<open>'\<close> unless the string holds
  a \<^verbatim>\<open>'\<close> and no \<^verbatim>\<open>"\<close>; the quote and the backslash are escaped, so are the control
  characters. Bytes from 0x80 on are kept as they are.
\<close>

definition hexdigit :: "nat \<Rightarrow> char" where
  "hexdigit n = ''0123456789abcdef'' ! (n mod 16)"

definition repr_char :: "char \<Rightarrow> char \<Rightarrow> string" where
  "repr_char q c =
     (if c = q \<or> c = CHR 0x5C then [CHR 0x5C, c]
      else if c = CHR 0x09 then [CHR 0x5C, CHR ''t'']
      else if c = CHR 0x0A then [CHR 0x5C, CHR ''n'']
      else if c = CHR 0x0D then [CHR 0x5C, CHR ''r'']
      else if (of_char c :: nat) < 32 \<or> c = CHR 0x7F
        then [CHR 0x5C, CHR ''x'', hexdigit (of_char c div 16), hexdigit (of_char c)]
      else [c])"

definition repr_quote :: "string \<Rightarrow> char" where
  "repr_quote s = (if CHR 0x27 \<in> set s \<and> CHR 0x22 \<notin> set s then CHR 0x22 else CHR 0x27)"

definition repr_str :: "string \<Rightarrow> string" where
  "repr_str s = (let q = repr_quote s in [q] @ concat (map (repr_char q) s) @ [q])"

fun join :: "string \<Rightarrow> string list \<Rightarrow> string" where
  "join sep [] = []"
| "join sep [x] = x"
| "join sep (x # y # ys) = x @ sep @ join sep (y # ys)"

text \<open>\<^verbatim>\<open>str\<close> of a list of strings, as an f-string formats it.\<close>

definition str_list :: "string list \<Rightarrow> string" where
  "str_list xs = ''['' @ join '', '' (map repr_str xs) @ '']''"

fun str_data :: "pydata \<Rightarrow> string" where
  "str_data PyNone = ''None''"
| "str_data (PyStr s) = s"

subsection \<open>Reading and writing the store\<close>

text \<open>\<^verbatim>\<open>obj.metadata.get("children", [])\<close>, which is also what iterating an object reads.\<close>

definition children_of :: "heap \<Rightarrow> addr \<Rightarrow> addr list" where
  "children_of h a = (case children (objs h a) of None \<Rightarrow> [] | Some cs \<Rightarrow> cs)"

definition set_parent :: "addr \<Rightarrow> addr option \<Rightarrow> heap \<Rightarrow> heap" where
  "set_parent a p h = h\<lparr>objs := (objs h)(a := (objs h a)\<lparr>parent := p\<rparr>)\<rparr>"

definition set_children :: "addr \<Rightarrow> addr list \<Rightarrow> heap \<Rightarrow> heap" where
  "set_children a cs h = h\<lparr>objs := (objs h)(a := (objs h a)\<lparr>children := Some cs\<rparr>)\<rparr>"

text \<open>\<^verbatim>\<open>obj.metadata.setdefault("children", [])\<close>: the key is created if it is absent.\<close>

definition setdefault_children :: "addr \<Rightarrow> heap \<Rightarrow> heap" where
  "setdefault_children a h = set_children a (children_of h a) h"

subsection \<open>Hashing (\<^verbatim>\<open>hash\<close> and \<^verbatim>\<open>shash\<close> of each class)\<close>

text \<open>
  \<^verbatim>\<open>sha1 = lambda x: hashlib.sha1(str(x).encode()).hexdigest()\<close> comes from the Python
  library; it is a parameter \<open>H\<close> of the model. What the repository's code decides is the
  string that is digested, so that string is defined first.
\<close>

text \<open>\<^verbatim>\<open>self.parent.id if self.parent else None\<close>, formatted.\<close>

definition parent_id :: "heap \<Rightarrow> addr \<Rightarrow> string" where
  "parent_id h a = (case parent (objs h a) of None \<Rightarrow> ''None'' | Some p \<Rightarrow> id_str (objs h p))"

definition children_ids :: "heap \<Rightarrow> addr \<Rightarrow> string list" where
  "children_ids h a = map (\<lambda>c. id_str (objs h c)) (children_of h a)"

text \<open>\<^verbatim>\<open>Matrix.layers\<close>: the children that are Layer instances.\<close>

definition layers :: "heap \<Rightarrow> addr \<Rightarrow> addr list" where
  "layers h a = filter (\<lambda>c. kind (objs h c) = Layer) (children_of h a)"

definition hash_input :: "heap \<Rightarrow> addr \<Rightarrow> string" where
  "hash_input h a =
     (let ob = objs h a in
      case kind ob of
        Leaf \<Rightarrow> str_data (data ob) @ ''|'' @ parent_id h a
      | Branch \<Rightarrow> str_data (data ob) @ ''|'' @ str_list (children_ids h a) @ ''|'' @ parent_id h a
      | Tree \<Rightarrow> str_data (data ob) @ ''|'' @ str_list (children_ids h a) @ ''|'' @ parent_id h a
      | Node \<Rightarrow> str_data (data ob) @ ''|'' @ str_list (children_ids h a) @ ''|'' @ parent_id h a
      | Net \<Rightarrow> str_list (children_ids h a)
      | Layer \<Rightarrow> name ob @ ''|'' @ str_list (children_ids h a)
      | Matrix \<Rightarrow> name ob @ ''|'' @ str_list (map (\<lambda>c. id_str (objs h c)) (layers h a)))"

definition shash_input :: "heap \<Rightarrow> addr \<Rightarrow> string" where
  "shash_input h a =
     (let ob = objs h a in
      case kind ob of
        Leaf \<Rightarrow> str_data (data ob)
      | Branch \<Rightarrow> str_data (data ob) @ ''|'' @ id_str ob
      | Tree \<Rightarrow> str_data (data ob)
      | Node \<Rightarrow> str_data (data ob)
      | Net \<Rightarrow> hash_input h a
      | Layer \<Rightarrow> name ob
      | Matrix \<Rightarrow> name ob)"

definition khash :: "(string \<Rightarrow> string) \<Rightarrow> heap \<Rightarrow> addr \<Rightarrow> string" where
  "khash H h a = H (hash_input h a)"

definition shash :: "(string \<Rightarrow> string) \<Rightarrow> heap \<Rightarrow> addr \<Rightarrow> string" where
  "shash H h a = H (shash_input h a)"

subsection \<open>Composition and decomposition (\<^verbatim>\<open>KObject.__add__\<close>, \<^verbatim>\<open>__sub__\<close>)\<close>

fun allowed_children :: "kind \<Rightarrow> kind list" where
  "allowed_children Leaf = [Leaf]"
| "allowed_children Branch = [Leaf]"
| "allowed_children Tree = [Branch]"
| "allowed_children Node = [Tree]"
| "allowed_children Net = [Node]"
| "allowed_children Layer = [Net]"
| "allowed_children Matrix = [Layer]"

text \<open>
  Equality of objects. \<^verbatim>\<open>KObject.__eq__\<close> compares the structural hashes:
\<close>

definition kobject_eq :: "(string \<Rightarrow> string) \<Rightarrow> heap \<Rightarrow> addr \<Rightarrow> addr \<Rightarrow> bool" where
  "kobject_eq H h x y = (khash H h x = khash H h y)"

text \<open>
  Each of the seven classes is declared with \<^verbatim>\<open>@dataclass\<close> and defines no
  \<^verbatim>\<open>__eq__\<close> in its own body, so the decorator gives it the generated \<^verbatim>\<open>__eq__\<close>,
  which shadows the inherited one: two objects are equal if they are of the same class
  and their fields are equal, compared in order, \<^verbatim>\<open>id\<close> first. Past the class and
  the id that comparison descends into the parents and the children; it belongs to the
  Python library and is not modelled. The operators therefore take the method in force as
  a parameter \<open>E\<close> (\<open>E h x y\<close> is \<^verbatim>\<open>x.__eq__(y)\<close> in the store \<open>h\<close>), and what is
  proved of them holds for \<open>kobject_eq H\<close> as for the generated method. On a store in
  which distinct objects differ in class or id the generated method is
  \<open>by_class_and_id\<close>.
\<close>

type_synonym equality = "heap \<Rightarrow> addr \<Rightarrow> addr \<Rightarrow> bool"

definition by_class_and_id :: equality where
  "by_class_and_id h x y =
     (kind (objs h x) = kind (objs h y) \<and> id_str (objs h x) = id_str (objs h y))"

text \<open>
  \<^verbatim>\<open>other in children\<close> and \<^verbatim>\<open>children.remove(other)\<close> compare each element with
  \<open>other\<close> by identity first and by \<^verbatim>\<open>__eq__\<close> then.
\<close>

definition py_eq :: "equality \<Rightarrow> heap \<Rightarrow> addr \<Rightarrow> addr \<Rightarrow> bool" where
  "py_eq E h x y = (x = y \<or> E h x y)"

definition py_in :: "equality \<Rightarrow> heap \<Rightarrow> addr \<Rightarrow> addr list \<Rightarrow> bool" where
  "py_in E h x cs = list_ex (\<lambda>c. py_eq E h c x) cs"

text \<open>\<^verbatim>\<open>list.remove(x)\<close>: drops the first element equal to \<open>x\<close>; \<open>None\<close> is the ValueError.\<close>

fun py_remove :: "equality \<Rightarrow> heap \<Rightarrow> addr \<Rightarrow> addr list \<Rightarrow> addr list option" where
  "py_remove E h x [] = None"
| "py_remove E h x (c # cs) =
     (if py_eq E h c x then Some cs else map_option ((#) c) (py_remove E h x cs))"

text \<open>
  \<^verbatim>\<open>KObject.__add__(self, other)\<close> for \<open>other\<close> a \<^verbatim>\<open>KObject\<close>. The allowed-children
  tuple of each of the seven classes is non-empty and none of them subclasses another, so
  the \<^verbatim>\<open>isinstance\<close> test is membership of the child's class in the tuple.
\<close>

definition kobject_add :: "equality \<Rightarrow> heap \<Rightarrow> addr \<Rightarrow> addr \<Rightarrow> (pyerr + addr) \<times> heap" where
  "kobject_add E h self other =
     (if allowed_children (kind (objs h self)) \<noteq> [] \<and>
         kind (objs h other) \<notin> set (allowed_children (kind (objs h self)))
      then (Inl (TypeError (kind (objs h self)) (kind (objs h other))), h)
      else
        let h1 = setdefault_children self h in
        if \<not> py_in E h1 other (children_of h1 self)
        then
          let h2 = set_parent other (Some self) h1;
              h3 = set_children self (children_of h2 self @ [other]) h2
          in (Inr other, h3)
        else (Inr other, h1))"

text \<open>\<^verbatim>\<open>KObject.__sub__(self, other)\<close>.\<close>

definition kobject_sub :: "equality \<Rightarrow> heap \<Rightarrow> addr \<Rightarrow> addr \<Rightarrow> (pyerr + addr) \<times> heap" where
  "kobject_sub E h self other =
     (if parent (objs h other) = Some self
      then
        let h1 = set_parent other None h in
        case py_remove E h1 other (children_of h1 self) of
          None \<Rightarrow> (Inl ValueError_not_in_list, h1)
        | Some cs \<Rightarrow> (Inr other, set_children self cs h1)
      else (Inr other, h))"

text \<open>
  \<^verbatim>\<open>KObject.__truediv__(self, parts)\<close>. No class of the repository defines the method
  \<^verbatim>\<open>partition\<close> that it calls, so the attribute lookup raises.
\<close>

definition kobject_truediv :: "heap \<Rightarrow> addr \<Rightarrow> int \<Rightarrow> pyerr + addr list list" where
  "kobject_truediv h self parts =
     (if parts \<le> 0 then Inl ValueError_parts else Inl (AttributeError ''partition''))"

subsection \<open>The retention policy (\<^verbatim>\<open>KRetentionPolicy.apply\<close>, \<^verbatim>\<open>_notify\<close>)\<close>

definition policy_notify :: "heap \<Rightarrow> addr \<Rightarrow> addr list \<Rightarrow> (pyerr + unit) \<times> heap" where
  "policy_notify h p victims =
     (if notify (pols h p) = RAISE then (Inl (ValueError_removed (length victims)), h)
      else if notify (pols h p) = CALL
        then (case callback (pols h p) of
                None \<Rightarrow> (Inr (), h)
              | Some cb \<Rightarrow> (Inr (), h\<lparr>calls := calls h @ [(cb, victims)]\<rparr>))
      else (Inr (), h))"

definition policy_apply :: "heap \<Rightarrow> addr \<Rightarrow> pyval \<Rightarrow> (pyerr + unit) \<times> heap" where
  "policy_apply h p container =
     (case container of
        PyList xs \<Rightarrow> (Inl (AttributeError ''metadata''), h)
      | PyObj c \<Rightarrow>
          let chn = children_of h c;
              overflow = int (length chn) - max_size (pols h p)
          in if overflow \<le> 0 then (Inr (), h)
             else
               let victims = (if prune_from (pols h p) = FORWARD
                              then slice_from chn (- overflow) else slice_to chn overflow);
                   survivors = (if prune_from (pols h p) = FORWARD
                                then slice_to chn (- overflow) else slice_from chn overflow);
                   h1 = (if prune_type (pols h p) = DISCARD
                         then h\<lparr>pols := (pols h)(p := (pols h p)\<lparr>retained := retained (pols h p) @ victims\<rparr>)\<rparr>
                         else h);
                   h2 = set_children c survivors h1
               in policy_notify h2 p victims)"

subsection \<open>The composition operator of each class\<close>

text \<open>
  The overrides of \<^verbatim>\<open>__add__\<close>: Branch, Tree, Node and Layer call
  \<^verbatim>\<open>self.retention.apply(self)\<close>; Matrix calls \<^verbatim>\<open>self.retention.apply(self.children)\<close>;
  Leaf and Net do not override the operator.
\<close>

definition after_add :: "heap \<Rightarrow> addr \<Rightarrow> addr \<Rightarrow> pyval \<Rightarrow> (pyerr + addr) \<times> heap" where
  "after_add h self res arg =
     (case retention (objs h self) of
        None \<Rightarrow> (Inr res, h)
      | Some p \<Rightarrow>
          (case policy_apply h p arg of
             (Inl e, h') \<Rightarrow> (Inl e, h')
           | (Inr u, h') \<Rightarrow> (Inr res, h')))"

definition compose :: "equality \<Rightarrow> heap \<Rightarrow> addr \<Rightarrow> addr \<Rightarrow> (pyerr + addr) \<times> heap" where
  "compose E h self other =
     (case kobject_add E h self other of
        (Inl e, h') \<Rightarrow> (Inl e, h')
      | (Inr res, h') \<Rightarrow>
          (case kind (objs h self) of
             Leaf \<Rightarrow> (Inr res, h')
           | Net \<Rightarrow> (Inr res, h')
           | Matrix \<Rightarrow> after_add h' self res (PyList (children_of h' self))
           | Branch \<Rightarrow> after_add h' self res (PyObj self)
           | Tree \<Rightarrow> after_add h' self res (PyObj self)
           | Node \<Rightarrow> after_add h' self res (PyObj self)
           | Layer \<Rightarrow> after_add h' self res (PyObj self)))"

text \<open>
  \<^verbatim>\<open>Net.register\<close> stores the object under its id in the auxiliary index (a dict:
  an existing key is overwritten in place, a new one is added at the end).
\<close>

fun dict_set :: "string \<Rightarrow> addr \<Rightarrow> (string \<times> addr) list \<Rightarrow> (string \<times> addr) list" where
  "dict_set k v [] = [(k, v)]"
| "dict_set k v ((k', v') # kvs) = (if k' = k then (k, v) # kvs else (k', v') # dict_set k v kvs)"

definition register :: "heap \<Rightarrow> addr \<Rightarrow> addr \<Rightarrow> heap" where
  "register h self ob =
     h\<lparr>objs := (objs h)(self := (objs h self)\<lparr>index := dict_set (id_str (objs h ob)) ob (index (objs h self))\<rparr>)\<rparr>"

text \<open>
  A freshly constructed object, as the dataclass defaults leave it (\<^verbatim>\<open>Leaf(id=i, data=d)\<close>
  and so on): no parent, empty metadata, no policy, empty index; the default name of a
  Matrix is \<^verbatim>\<open>Matrix\<close>, that of a Layer is empty.
\<close>

definition new_object :: "kind \<Rightarrow> string \<Rightarrow> pydata \<Rightarrow> KObject" where
  "new_object k i d =
     \<lparr>kind = k, id_str = i, parent = None, children = None, data = d,
      name = (if k = Matrix then ''Matrix'' else []), retention = None, index = []\<rparr>"

text \<open>
  \<^verbatim>\<open>Net.add_node(node_data)\<close>. The new Node lives at the address \<open>a\<close> the allocator
  hands out and carries the id \<open>i\<close> that \<^verbatim>\<open>gen_id()\<close> returned. The method composes the
  node, registers it and then passes the children list, not the Net, to
  \<^verbatim>\<open>self.retention.apply\<close>.
\<close>

definition add_node :: "equality \<Rightarrow> heap \<Rightarrow> addr \<Rightarrow> addr \<Rightarrow> string \<Rightarrow> pydata \<Rightarrow> (pyerr + addr) \<times> heap" where
  "add_node E h self a i node_data =
     (let h0 = h\<lparr>objs := (objs h)(a := new_object Node i node_data)\<rparr> in
      case compose E h0 self a of
        (Inl e, h1) \<Rightarrow> (Inl e, h1)
      | (Inr res, h1) \<Rightarrow>
          let h2 = register h1 self a in
          after_add h2 self a (PyList (children_of h2 self)))"

subsection \<open>The traverser (\<^verbatim>\<open>KTraverser.traverse\<close>)\<close>





subsection \<open>Notions the properties are stated with\<close>


text \<open>
  The containment invariant of the data model: an object's parent is the container
  exactly if the object is among the container's children.
\<close>

definition parent_child_inv :: "heap \<Rightarrow> bool" where
  "parent_child_inv h \<longleftrightarrow>
     (\<forall>c n. (parent (objs h n) = Some c) = (n \<in> set (children_of h c)))"

text \<open>
  What an operator on container \<open>c\<close> and child \<open>x\<close> may change: the children of \<open>c\<close>
  and the parent of \<open>x\<close>, nothing else of any object.
\<close>

definition frame :: "addr \<Rightarrow> addr \<Rightarrow> heap \<Rightarrow> heap \<Rightarrow> bool" where
  "frame c x h h' \<longleftrightarrow>
     (\<forall>a. kind (objs h' a) = kind (objs h a) \<and> id_str (objs h' a) = id_str (objs h a) \<and>
          data (objs h' a) = data (objs h a) \<and> name (objs h' a) = name (objs h a) \<and>
          retention (objs h' a) = retention (objs h a)) \<and>
     (\<forall>a. a \<noteq> c \<longrightarrow> children (objs h' a) = children (objs h a)) \<and>
     (\<forall>a. a \<noteq> x \<longrightarrow> parent (objs h' a) = parent (objs h a))"

subsection \<open>Concrete stores\<close>

text \<open>
  For evaluating the operators on concrete stores the digest is the identity on strings:
  it has no collisions, which is what the code expects of \<^verbatim>\<open>sha1\<close> on the handful of
  strings a small example digests. The equality is \<open>by_class_and_id\<close>: the objects the
  examples compare differ in class or id (and in structural hash, so \<open>kobject_eq\<close> would
  decide the same).
\<close>

definition plain_digest :: "string \<Rightarrow> string" where
  "plain_digest s = s"

definition new_policy :: "int \<Rightarrow> PruneFrom \<Rightarrow> PruneType \<Rightarrow> NotifyMode \<Rightarrow> KRetentionPolicy" where
  "new_policy m f t n =
     \<lparr>max_size = m, prune_from = f, prune_type = t, notify = n, callback = None, retained = []\<rparr>"

text \<open>
  A store whose listed addresses hold the listed objects and policies; every other address
  holds a fresh parentless Leaf (no program state refers to it).
\<close>

definition store :: "(addr \<times> KObject) list \<Rightarrow> (addr \<times> KRetentionPolicy) list \<Rightarrow> heap" where
  "store os ps =
     \<lparr>objs = (\<lambda>a. case map_of os a of None \<Rightarrow> new_object Leaf [] PyNone | Some ob \<Rightarrow> ob),
      pols = (\<lambda>p. case map_of ps p of None \<Rightarrow> new_policy 0 FORWARD DESTROY SUPPRESS | Some pol \<Rightarrow> pol),
      calls = []\<rparr>"

text \<open>
  A Branch \<open>b\<close> at address 0 whose children are the Leaves at the addresses \<open>cs\<close>, under
  a policy with bound \<open>m\<close> at policy address 0; the Leaves at 1 to 5 carry the data
  \<open>a\<close> to \<open>e\<close>, those of \<open>cs\<close> point back at the Branch.
\<close>

definition leaf_at :: "addr list \<Rightarrow> addr \<Rightarrow> string \<Rightarrow> KObject" where
  "leaf_at cs a d =
     (new_object Leaf (''l'' @ d) (PyStr d))\<lparr>parent := (if a \<in> set cs then Some 0 else None)\<rparr>"

definition branch_store :: "addr list \<Rightarrow> int \<Rightarrow> PruneFrom \<Rightarrow> NotifyMode \<Rightarrow> heap" where
  "branch_store cs m f n =
     store
       [(0, (new_object Branch ''b'' PyNone)\<lparr>children := Some cs, retention := Some 0\<rparr>),
        (1, leaf_at cs 1 ''a''), (2, leaf_at cs 2 ''b''), (3, leaf_at cs 3 ''c''),
        (4, leaf_at cs 4 ''d''), (5, leaf_at cs 5 ''e'')]
       [(0, new_policy m f DISCARD n)]"

text \<open>
  Two fresh objects of the given classes at the addresses 0 and 1; in
  \<open>attached_pair_store\<close> the second one is the child of the first, in
  \<open>guarded_pair_store\<close> the first one carries a policy with bound \<open>m\<close>.
\<close>

definition pair_store :: "kind \<Rightarrow> kind \<Rightarrow> heap" where
  "pair_store k k' = store [(0, new_object k ''p'' PyNone), (1, new_object k' ''q'' PyNone)] []"

definition attached_pair_store :: "kind \<Rightarrow> kind \<Rightarrow> heap" where
  "attached_pair_store k k' =
     store [(0, (new_object k ''p'' PyNone)\<lparr>children := Some [1]\<rparr>),
            (1, (new_object k' ''q'' PyNone)\<lparr>parent := Some 0\<rparr>)] []"

definition guarded_pair_store :: "kind \<Rightarrow> kind \<Rightarrow> int \<Rightarrow> heap" where
  "guarded_pair_store k k' m =
     store [(0, (new_object k ''p'' PyNone)\<lparr>retention := Some 0\<rparr>), (1, new_object k' ''q'' PyNone)]
       [(0, new_policy m FORWARD DISCARD SUPPRESS)]"







text \<open>
  First in, first out. The history of the queue is the start entry followed by what each
  yielded entry appended, in the order of the yields. \<open>first_visits V es\<close> keeps of a
  list of entries those whose node is neither in \<open>V\<close> nor earlier in the list. The
  yields are in FIFO order if they are the first visits of the history they generate, and
  each yield is the next first visit of the history generated by the yields before it;
  the second condition fixes every yield by its predecessors.
\<close>

fun first_visits :: "'a set \<Rightarrow> ('a \<times> 'b) list \<Rightarrow> ('a \<times> 'b) list" where
  "first_visits V [] = []"
| "first_visits V (e # es) =
     (if fst e \<in> V then first_visits V es else e # first_visits (insert (fst e) V) es)"

definition enqueued :: "('a \<Rightarrow> 'a list) \<Rightarrow> 'a \<times> 'a list \<Rightarrow> ('a \<times> 'a list) list" where
  "enqueued nb e = map (\<lambda>m. (m, snd e @ [fst e])) (nb (fst e))"

definition queue_history :: "('a \<Rightarrow> 'a list) \<Rightarrow> 'a \<Rightarrow> ('a \<times> 'a list) list \<Rightarrow> ('a \<times> 'a list) list" where
  "queue_history nb start ys = (start, []) # concat (map (enqueued nb) ys)"

definition fifo_order :: "('a \<Rightarrow> 'a list) \<Rightarrow> 'a \<Rightarrow> ('a \<times> 'a list) list \<Rightarrow> bool" where
  "fifo_order nb start ys \<longleftrightarrow>
     ys = first_visits {} (queue_history nb start ys) \<and>
     (\<forall>k<length ys.
        take (Suc k) ys = take (Suc k) (first_visits {} (queue_history nb start (take k ys))))"




section \<open>Basic facts about the store\<close>

lemma children_of_set_children [simp]:
  "children_of (set_children a cs h) b = (if b = a then cs else children_of h b)"
  by (simp add: children_of_def set_children_def)

lemma children_of_set_parent [simp]:
  "children_of (set_parent a p h) b = children_of h b"
  by (simp add: children_of_def set_parent_def)

lemma children_of_pols_update [simp]: "children_of (h\<lparr>pols := ps\<rparr>) b = children_of h b"
  by (simp add: children_of_def)

lemma children_of_calls_update [simp]: "children_of (h\<lparr>calls := cl\<rparr>) b = children_of h b"
  by (simp add: children_of_def)

lemma children_of_policy_notify [simp]:
  "children_of (snd (policy_notify h p vs)) b = children_of h b"
  by (simp add: policy_notify_def split: option.splits)

lemma pols_set_children [simp]: "pols (set_children a cs h) = pols h"
  by (simp add: set_children_def)

lemma pols_set_parent [simp]: "pols (set_parent a p h) = pols h"
  by (simp add: set_parent_def)

subsection \<open>Python slices as \<open>take\<close> and \<open>drop\<close>\<close>

lemma slice_to_neg: "k < 0 \<Longrightarrow> slice_to xs k = take (length xs - nat (- k)) xs"
  by (auto simp: slice_to_def Let_def max_def intro!: arg_cong2 [where f = take])

lemma slice_from_neg: "k < 0 \<Longrightarrow> slice_from xs k = drop (length xs - nat (- k)) xs"
  by (auto simp: slice_from_def Let_def max_def intro!: arg_cong2 [where f = drop])

lemma slice_to_pos: "0 \<le> k \<Longrightarrow> slice_to xs k = take (nat k) xs"
  by (auto simp: slice_to_def Let_def min_def)

lemma slice_from_pos: "0 \<le> k \<Longrightarrow> slice_from xs k = drop (nat k) xs"
  by (auto simp: slice_from_def Let_def min_def)

section \<open>The retention policy\<close>

text \<open>With an overflow, the children that stay are a prefix or a suffix of the old ones.\<close>

lemma policy_apply_survivors:
  assumes "max_size (pols h p) < int (length (children_of h c))"
  shows "children_of (snd (policy_apply h p (PyObj c))) c =
     (if prune_from (pols h p) = FORWARD
      then take (length (children_of h c) - nat (int (length (children_of h c)) - max_size (pols h p)))
             (children_of h c)
      else drop (nat (int (length (children_of h c)) - max_size (pols h p))) (children_of h c))"
  using assms
  by (simp add: policy_apply_def Let_def slice_to_neg slice_from_pos)

lemma policy_apply_compliant:
  "int (length (children_of h c)) \<le> max_size (pols h p) \<Longrightarrow> policy_apply h p (PyObj c) = (Inr (), h)"
  by (simp add: policy_apply_def Let_def)

lemma policy_apply_bounded:
  assumes "0 \<le> max_size (pols h p)" "max_size (pols h p) < int (length (children_of h c))"
  shows "children_of (snd (policy_apply h p (PyObj c))) c =
        (if prune_from (pols h p) = FORWARD
         then take (nat (max_size (pols h p))) (children_of h c)
         else drop (length (children_of h c) - nat (max_size (pols h p))) (children_of h c))"
proof -
  from assms
  have "length (children_of h c) - nat (int (length (children_of h c)) - max_size (pols h p))
      = nat (max_size (pols h p))"
    and "nat (int (length (children_of h c)) - max_size (pols h p))
      = length (children_of h c) - nat (max_size (pols h p))"
    by linarith+
  with assms show ?thesis
    by (simp add: policy_apply_survivors)
qed

text \<open>In the mode \<open>RAISE\<close> the error carries the number of victims.\<close>

lemma policy_apply_raise:
  assumes "notify (pols h p) = RAISE" "0 \<le> max_size (pols h p)"
    "max_size (pols h p) < int (length (children_of h c))"
  shows "fst (policy_apply h p (PyObj c)) =
    Inl (ValueError_removed (length (children_of h c) - nat (max_size (pols h p))))"
proof -
  let ?n = "length (children_of h c)" and ?m = "max_size (pols h p)"
  have "min ?n (nat (int ?n - ?m)) = ?n - nat ?m" "?n - (?n - nat (int ?n - ?m)) = ?n - nat ?m"
    using assms by linarith+
  with assms show ?thesis
    by (simp add: policy_apply_def policy_notify_def Let_def slice_from_neg slice_to_pos)
qed

lemmas store_eval = branch_store_def store_def leaf_at_def new_object_def new_policy_def
  children_of_def set_children_def set_parent_def

lemma branch_store_simps:
  "children_of (branch_store cs m f n) 0 = cs"
  "max_size (pols (branch_store cs m f n) 0) = m"
  "prune_from (pols (branch_store cs m f n) 0) = f"
  "notify (pols (branch_store cs m f n) 0) = n"
  by (simp_all add: store_eval)

text \<open>
  Claim C8. \<^verbatim>\<open>KRetentionPolicy.apply\<close> on a container: if the children do not exceed
  \<open>max_size\<close>, nothing changes and nothing is raised. If they do (and the bound is not
  negative), the selector \<open>FORWARD\<close> (the spec's front selector) keeps the first
  \<open>max_size\<close> children, the oldest, and drops the newest; \<open>BACKWARD\<close> keeps the last
  \<open>max_size\<close> children and drops the oldest. With 5 children and the bound 3 these are
  the 3 oldest and the 3 newest.
\<close>

theorem retention_apply_evicts:
  "(int (length (children_of h c)) \<le> max_size (pols h p) \<longrightarrow>
      policy_apply h p (PyObj c) = (Inr (), h)) \<and>
   (0 \<le> max_size (pols h p) \<and> max_size (pols h p) < int (length (children_of h c)) \<longrightarrow>
      children_of (snd (policy_apply h p (PyObj c))) c =
        (if prune_from (pols h p) = FORWARD
         then take (nat (max_size (pols h p))) (children_of h c)
         else drop (length (children_of h c) - nat (max_size (pols h p))) (children_of h c)))"
  using policy_apply_compliant [of h c p] policy_apply_bounded [of h p c] by blast

theorem retention_apply_evicts_witness:
  "children_of (snd (policy_apply (branch_store [1, 2, 3, 4, 5] 3 FORWARD SUPPRESS) 0 (PyObj 0))) 0
     = [1, 2, 3] \<and>
   children_of (snd (policy_apply (branch_store [1, 2, 3, 4, 5] 3 BACKWARD SUPPRESS) 0 (PyObj 0))) 0
     = [3, 4, 5] \<and>
   policy_apply (branch_store [1, 2, 3] 3 FORWARD SUPPRESS) 0 (PyObj 0) =
     (Inr (), branch_store [1, 2, 3] 3 FORWARD SUPPRESS)"
  using retention_apply_evicts [of "branch_store [1, 2, 3, 4, 5] 3 FORWARD SUPPRESS" 0 0]
    retention_apply_evicts [of "branch_store [1, 2, 3, 4, 5] 3 BACKWARD SUPPRESS" 0 0]
    retention_apply_evicts [of "branch_store [1, 2, 3] 3 FORWARD SUPPRESS" 0 0]
  by (simp add: branch_store_simps)

section \<open>Composition\<close>

lemma objs_set_children [simp]:
  "kind (objs (set_children a cs h) x) = kind (objs h x)"
  "id_str (objs (set_children a cs h) x) = id_str (objs h x)"
  "data (objs (set_children a cs h) x) = data (objs h x)"
  "name (objs (set_children a cs h) x) = name (objs h x)"
  "retention (objs (set_children a cs h) x) = retention (objs h x)"
  "parent (objs (set_children a cs h) x) = parent (objs h x)"
  by (simp_all add: set_children_def)

lemma objs_set_parent [simp]:
  "kind (objs (set_parent a p h) x) = kind (objs h x)"
  "id_str (objs (set_parent a p h) x) = id_str (objs h x)"
  "data (objs (set_parent a p h) x) = data (objs h x)"
  "name (objs (set_parent a p h) x) = name (objs h x)"
  "retention (objs (set_parent a p h) x) = retention (objs h x)"
  "parent (objs (set_parent a p h) x) = (if x = a then p else parent (objs h x))"
  by (simp_all add: set_parent_def)

lemma allowed_children_nonempty: "allowed_children k \<noteq> []"
  by (cases k) simp_all

text \<open>The digested string depends on the store only through the fields it reads.\<close>

lemma hash_input_cong:
  assumes "\<And>x. kind (objs h' x) = kind (objs h x)" "\<And>x. id_str (objs h' x) = id_str (objs h x)"
    "data (objs h' a) = data (objs h a)" "name (objs h' a) = name (objs h a)"
    "children_of h' a = children_of h a" "parent (objs h' a) = parent (objs h a)"
  shows "hash_input h' a = hash_input h a"
  using assms
  by (simp add: hash_input_def parent_id_def children_ids_def layers_def Let_def
      split: kind.splits option.splits)

lemma children_of_setdefault [simp]:
  "children_of (setdefault_children c h) a = children_of h a"
  by (simp add: setdefault_children_def)

lemma objs_setdefault [simp]:
  "kind (objs (setdefault_children c h) x) = kind (objs h x)"
  "id_str (objs (setdefault_children c h) x) = id_str (objs h x)"
  "data (objs (setdefault_children c h) x) = data (objs h x)"
  "name (objs (setdefault_children c h) x) = name (objs h x)"
  "retention (objs (setdefault_children c h) x) = retention (objs h x)"
  "parent (objs (setdefault_children c h) x) = parent (objs h x)"
  by (simp_all add: setdefault_children_def)

lemma pols_setdefault [simp]: "pols (setdefault_children c h) = pols h"
  by (simp add: setdefault_children_def)

lemma kobject_add_appends:
  assumes "kind (objs h other) \<in> set (allowed_children (kind (objs h self)))"
    "\<not> py_in E (setdefault_children self h) other (children_of h self)"
  shows "kobject_add E h self other =
    (Inr other, set_children self (children_of h self @ [other])
        (set_parent other (Some self) (setdefault_children self h)))"
  using assms by (simp add: kobject_add_def Let_def)

lemma pair_store_simps:
  "kind (objs (pair_store k k') 0) = k"
  "kind (objs (pair_store k k') 1) = k'"
  "kind (objs (pair_store k k') (Suc 0)) = k'"
  "children_of (pair_store k k') a = []"
  "retention (objs (pair_store k k') a) = None"
  by (simp_all add: pair_store_def store_def new_object_def children_of_def split: option.splits)

text \<open>
  Claim C4. Composing a child whose class is not in the container's allowed-children tuple
  raises the TypeError, and the store, so the container's children too, is left as it was.
\<close>

theorem compose_rejects_foreign_child:
  assumes "kind (objs h other) \<notin> set (allowed_children (kind (objs h self)))"
  shows "compose E h self other = (Inl (TypeError (kind (objs h self)) (kind (objs h other))), h)"
  using assms by (simp add: compose_def kobject_add_def allowed_children_nonempty)

theorem compose_rejects_foreign_child_witness:
  "Leaf \<notin> set (allowed_children Tree) \<and>
   compose by_class_and_id (pair_store Tree Leaf) 0 1 = (Inl (TypeError Tree Leaf), pair_store Tree Leaf)"
  using compose_rejects_foreign_child [of "pair_store Tree Leaf" 1 0 by_class_and_id]
  by (simp add: pair_store_simps)

text \<open>
  Claim C10, as the code has it. Leaf declares \<^verbatim>\<open>(Leaf,)\<close> as its allowed children and
  inherits \<^verbatim>\<open>KObject.__add__\<close>: a child of another class is rejected with the TypeError
  and the store is unchanged, but a Leaf that is not yet a member (by identity or by
  \<^verbatim>\<open>__eq__\<close>) is appended to the Leaf's children and gets the Leaf as its parent.
\<close>

theorem leaf_accepts_leaf:
  assumes "kind (objs h self) = Leaf"
  shows "(kind (objs h other) \<noteq> Leaf \<longrightarrow>
            compose E h self other = (Inl (TypeError Leaf (kind (objs h other))), h)) \<and>
         (kind (objs h other) = Leaf \<and>
          \<not> py_in E (setdefault_children self h) other (children_of h self) \<longrightarrow>
            fst (compose E h self other) = Inr other \<and>
            children_of (snd (compose E h self other)) self = children_of h self @ [other] \<and>
            parent (objs (snd (compose E h self other)) other) = Some self)"
  using assms by (auto simp: compose_def kobject_add_appends) (simp add: kobject_add_def)

theorem leaf_accepts_leaf_witness:
  "kind (objs (pair_store Leaf Leaf) 0) = Leaf \<and> kind (objs (pair_store Leaf Leaf) 1) = Leaf \<and>
   \<not> py_in by_class_and_id (setdefault_children 0 (pair_store Leaf Leaf)) 1
        (children_of (pair_store Leaf Leaf) 0) \<and>
   children_of (snd (compose by_class_and_id (pair_store Leaf Leaf) 0 1)) 0 = [1] \<and>
   parent (objs (snd (compose by_class_and_id (pair_store Leaf Leaf) 0 1)) 1) = Some 0 \<and>
   kind (objs (pair_store Leaf Tree) 1) \<noteq> Leaf \<and>
   compose by_class_and_id (pair_store Leaf Tree) 0 1 = (Inl (TypeError Leaf Tree), pair_store Leaf Tree)"
  using leaf_accepts_leaf [of "pair_store Leaf Leaf" 0 1 by_class_and_id]
    leaf_accepts_leaf [of "pair_store Leaf Tree" 0 1 by_class_and_id]
  by (simp add: pair_store_simps py_in_def)

text \<open>
  The claim as stated fails: two fresh Leaves, the first without children; the composition
  operator, a public operation of Leaf, returns normally and the first Leaf has a child.
\<close>

theorem leaf_children_counterexample:
  "kind (objs (pair_store Leaf Leaf) 0) = Leaf \<and> children_of (pair_store Leaf Leaf) 0 = [] \<and>
   fst (compose by_class_and_id (pair_store Leaf Leaf) 0 1) = Inr 1 \<and>
   children_of (snd (compose by_class_and_id (pair_store Leaf Leaf) 0 1)) 0 = [1]"
  by (simp add: pair_store_simps compose_def kobject_add_def py_in_def Let_def)

section \<open>Abort mode\<close>

lemma kobject_add_pols: "pols (snd (kobject_add E h c x)) = pols h"
  by (simp add: kobject_add_def Let_def)

lemma kobject_add_static:
  "kind (objs (snd (kobject_add E h c x)) a) = kind (objs h a)"
  "id_str (objs (snd (kobject_add E h c x)) a) = id_str (objs h a)"
  "data (objs (snd (kobject_add E h c x)) a) = data (objs h a)"
  "name (objs (snd (kobject_add E h c x)) a) = name (objs h a)"
  "retention (objs (snd (kobject_add E h c x)) a) = retention (objs h a)"
  by (simp_all add: kobject_add_def Let_def)

lemma abort_store_add:
  "kobject_add by_class_and_id (branch_store [1, 2, 3, 4] 3 BACKWARD RAISE) 0 5 =
     (Inr 5, snd (kobject_add by_class_and_id (branch_store [1, 2, 3, 4] 3 BACKWARD RAISE) 0 5))"
  "children_of (snd (kobject_add by_class_and_id (branch_store [1, 2, 3, 4] 3 BACKWARD RAISE) 0 5)) 0
     = [1, 2, 3, 4, 5]"
  "fst (kobject_add by_class_and_id (branch_store [1, 2, 3, 4] 3 BACKWARD RAISE) 0 5) = Inr 5"
  "kind (objs (branch_store cs m f n) 0) = Branch"
  "retention (objs (branch_store cs m f n) 0) = Some 0"
  by (simp_all add: kobject_add_def store_eval py_in_def py_eq_def by_class_and_id_def
      setdefault_children_def Let_def)

text \<open>
  Claim C1, as the code has it. A Branch, Tree, Node or Layer with a policy in the mode
  \<open>RAISE\<close>: when the insert (\<open>kobject_add\<close>, returning the store \<open>h1\<close>) leaves more
  children than \<open>max_size\<close>, the composition raises the ValueError that carries the number
  of victims, the overflow. Nothing is unwound: after the error the container's children
  are the survivors of the eviction, the first \<open>max_size\<close> of the children with
  \<open>FORWARD\<close> and the last \<open>max_size\<close> with \<open>BACKWARD\<close>.
\<close>

theorem abort_mode_keeps_eviction:
  assumes "kind (objs h c) \<in> {Branch, Tree, Node, Layer}"
    and "retention (objs h c) = Some p" and "notify (pols h p) = RAISE"
    and "kobject_add E h c x = (Inr r, h1)"
    and "0 \<le> max_size (pols h p)" and "max_size (pols h p) < int (length (children_of h1 c))"
  shows "fst (compose E h c x) =
           Inl (ValueError_removed (length (children_of h1 c) - nat (max_size (pols h p)))) \<and>
         children_of (snd (compose E h c x)) c =
           (if prune_from (pols h p) = FORWARD
            then take (nat (max_size (pols h p))) (children_of h1 c)
            else drop (length (children_of h1 c) - nat (max_size (pols h p))) (children_of h1 c))"
proof -
  have p1: "pols h1 = pols h" and r1: "retention (objs h1 c) = Some p"
    using kobject_add_pols [of E h c x] kobject_add_static(5) [of E h c x c] assms(2,4) by simp_all
  have c: "compose E h c x =
      (case policy_apply h1 p (PyObj c) of (Inl e, h') \<Rightarrow> (Inl e, h') | (Inr u, h') \<Rightarrow> (Inr r, h'))"
    using assms(1,4) r1 by (auto simp: compose_def after_add_def)
  have f: "fst (policy_apply h1 p (PyObj c)) =
      Inl (ValueError_removed (length (children_of h1 c) - nat (max_size (pols h p))))"
    using policy_apply_raise [of h1 p c] assms(3,5,6) p1 by simp
  have s: "children_of (snd (policy_apply h1 p (PyObj c))) c =
      (if prune_from (pols h p) = FORWARD
            then take (nat (max_size (pols h p))) (children_of h1 c)
            else drop (length (children_of h1 c) - nat (max_size (pols h p))) (children_of h1 c))"
    using policy_apply_bounded [of h1 p c] assms(5,6) p1 by simp
  from c f s show ?thesis
    by (cases "policy_apply h1 p (PyObj c)") (auto split: sum.splits)
qed

theorem abort_mode_keeps_eviction_witness:
  "kind (objs (branch_store [1, 2, 3, 4] 3 BACKWARD RAISE) 0) \<in> {Branch, Tree, Node, Layer} \<and>
   retention (objs (branch_store [1, 2, 3, 4] 3 BACKWARD RAISE) 0) = Some 0 \<and>
   notify (pols (branch_store [1, 2, 3, 4] 3 BACKWARD RAISE) 0) = RAISE \<and>
   fst (kobject_add by_class_and_id (branch_store [1, 2, 3, 4] 3 BACKWARD RAISE) 0 5) = Inr 5 \<and>
   fst (compose by_class_and_id (branch_store [1, 2, 3, 4] 3 BACKWARD RAISE) 0 5)
     = Inl (ValueError_removed 2) \<and>
   children_of (snd (compose by_class_and_id (branch_store [1, 2, 3, 4] 3 BACKWARD RAISE) 0 5)) 0
     = [3, 4, 5]"
  using abort_mode_keeps_eviction [OF _ _ _ abort_store_add(1), of 0]
  by (simp del: One_nat_def add: abort_store_add(2-) branch_store_simps)

text \<open>
  The claim as stated fails. A Branch with the children 1 to 4 and a policy with bound 3 in
  the mode \<open>RAISE\<close>; the Leaf 5 is composed. The error reports 2 victims, and before the
  eviction the Branch had the 5 children 1 to 5; after the error it has the 3 children
  1 to 3, not the pre-eviction ones.
\<close>

theorem abort_mode_counterexample:
  "fst (compose by_class_and_id (branch_store [1, 2, 3, 4] 3 FORWARD RAISE) 0 5)
     = Inl (ValueError_removed 2) \<and>
   children_of (snd (kobject_add by_class_and_id (branch_store [1, 2, 3, 4] 3 FORWARD RAISE) 0 5)) 0
     = [1, 2, 3, 4, 5] \<and>
   children_of (snd (compose by_class_and_id (branch_store [1, 2, 3, 4] 3 FORWARD RAISE) 0 5)) 0
     = [1, 2, 3]"
  by (simp add: compose_def kobject_add_def after_add_def policy_apply_def policy_notify_def
      store_eval py_in_def py_eq_def by_class_and_id_def setdefault_children_def
      slice_from_def slice_to_def Let_def)

section \<open>Where the code departs from its own pattern\<close>

lemmas op_eval = compose_def kobject_add_def after_add_def policy_apply_def policy_notify_def
  py_in_def py_eq_def by_class_and_id_def setdefault_children_def
  khash_def hash_input_def parent_id_def plain_digest_def
  slice_from_def slice_to_def Let_def

text \<open>
  Claim C2. With a policy of bound 0 attached, composing one child must leave no child
  behind, as it does for a Layer (and Branch, Tree, Node). For a Matrix the operator passes
  the children list to \<^verbatim>\<open>apply\<close>, which raises the AttributeError on \<^verbatim>\<open>.metadata\<close>:
  the child stays and the policy never ran on the Matrix. Net does not override the
  operator at all: the child stays and nothing is raised; its \<^verbatim>\<open>add_node\<close> passes the
  list as Matrix does.
\<close>

theorem policy_not_applied_to_matrix_and_net:
  "fst (compose by_class_and_id (guarded_pair_store Matrix Layer 0) 0 1)
     = Inl (AttributeError ''metadata'') \<and>
   children_of (snd (compose by_class_and_id (guarded_pair_store Matrix Layer 0) 0 1)) 0 = [1] \<and>
   fst (compose by_class_and_id (guarded_pair_store Net Node 0) 0 1) = Inr 1 \<and>
   children_of (snd (compose by_class_and_id (guarded_pair_store Net Node 0) 0 1)) 0 = [1] \<and>
   fst (add_node by_class_and_id (guarded_pair_store Net Node 0) 0 2 ''n'' PyNone)
     = Inl (AttributeError ''metadata'') \<and>
   fst (compose by_class_and_id (guarded_pair_store Layer Net 0) 0 1) = Inr 1 \<and>
   children_of (snd (compose by_class_and_id (guarded_pair_store Layer Net 0) 0 1)) 0 = []"
  by (simp add: op_eval guarded_pair_store_def store_eval add_node_def register_def)

text \<open>
  Claim C3. \<^verbatim>\<open>node / parts\<close> raises the ValueError for \<open>parts \<le> 0\<close>, as claimed. For
  \<open>parts > 0\<close> it never returns groups: the method \<^verbatim>\<open>partition\<close> it delegates to is
  defined by no class, so the call raises the AttributeError.
\<close>

theorem truediv_never_partitions:
  "kobject_truediv h self parts =
     Inl (if parts \<le> 0 then ValueError_parts else AttributeError ''partition'')"
  by (simp add: kobject_truediv_def)

lemma fresh_branch_store_inv: "parent_child_inv (branch_store [] 1 FORWARD SUPPRESS)"
  by (auto simp: parent_child_inv_def store_eval split: option.splits if_splits)

text \<open>
  Claim C5. A Branch without children and with a policy of bound 1; the containment
  invariant holds. The Leaves 1 and 2 are composed, both compositions return normally.
  The policy evicts Leaf 2 from the children but \<^verbatim>\<open>apply\<close> does not clear its parent,
  as \<^verbatim>\<open>__sub__\<close> would: Leaf 2 still names the Branch as its parent and is not among the
  Branch's children, so the invariant is broken in a reachable state.
\<close>

theorem eviction_breaks_parent_child_inv:
  "parent_child_inv (branch_store [] 1 FORWARD SUPPRESS) \<and>
   fst (compose by_class_and_id
          (snd (compose by_class_and_id (branch_store [] 1 FORWARD SUPPRESS) 0 1)) 0 2) = Inr 2 \<and>
   parent (objs (snd (compose by_class_and_id
          (snd (compose by_class_and_id (branch_store [] 1 FORWARD SUPPRESS) 0 1)) 0 2)) 2) = Some 0 \<and>
   children_of (snd (compose by_class_and_id
          (snd (compose by_class_and_id (branch_store [] 1 FORWARD SUPPRESS) 0 1)) 0 2)) 0 = [1] \<and>
   \<not> parent_child_inv (snd (compose by_class_and_id
          (snd (compose by_class_and_id (branch_store [] 1 FORWARD SUPPRESS) 0 1)) 0 2))"
proof -
  let ?h = "snd (compose by_class_and_id
          (snd (compose by_class_and_id (branch_store [] 1 FORWARD SUPPRESS) 0 1)) 0 2)"
  have a: "fst (compose by_class_and_id
          (snd (compose by_class_and_id (branch_store [] 1 FORWARD SUPPRESS) 0 1)) 0 2) = Inr 2"
    and b: "parent (objs ?h 2) = Some 0" and c: "children_of ?h 0 = [1]"
    by (simp_all add: op_eval store_eval)
  have "\<not> parent_child_inv ?h"
  proof
    assume "parent_child_inv ?h"
    then have "(parent (objs ?h 2) = Some 0) = (2 \<in> set (children_of ?h 0))"
      unfolding parent_child_inv_def by blast
    with b c show False by simp
  qed
  with a b c fresh_branch_store_inv show ?thesis by blast
qed

text \<open>
  The composition operator itself breaks the invariant in the other direction: composing a
  Branch that already has a parent into a second Tree sets the new parent and leaves the
  Branch among the first Tree's children.
\<close>

lemma compose_keeps_old_membership:
  "children_of (snd (compose by_class_and_id (snd (compose by_class_and_id
       (store [(0, new_object Tree ''t'' PyNone), (1, new_object Tree ''u'' PyNone),
               (2, new_object Branch ''b'' PyNone)] []) 0 2)) 1 2)) 0 = [2] \<and>
   parent (objs (snd (compose by_class_and_id (snd (compose by_class_and_id
       (store [(0, new_object Tree ''t'' PyNone), (1, new_object Tree ''u'' PyNone),
               (2, new_object Branch ''b'' PyNone)] []) 0 2)) 1 2)) 2) = Some 1"
  by (simp add: op_eval store_eval children_ids_def str_list_def)

section \<open>What the operators leave unchanged\<close>

lemma frame_refl: "frame c x h h"
  by (simp add: frame_def)

lemma frame_trans: "frame c x h h1 \<Longrightarrow> frame c x h1 h2 \<Longrightarrow> frame c x h h2"
  by (simp add: frame_def)

lemma kobject_add_frame: "frame c x h (snd (kobject_add E h c x))"
  by (simp add: kobject_add_def Let_def frame_def setdefault_children_def set_children_def
      set_parent_def)

lemma policy_notify_objs: "objs (snd (policy_notify h p vs)) = objs h"
  by (simp add: policy_notify_def split: option.splits)

lemma policy_apply_frame: "frame c x h (snd (policy_apply h p (PyObj c)))"
  by (simp add: policy_apply_def Let_def frame_def policy_notify_objs set_children_def)

lemma policy_apply_list: "snd (policy_apply h p (PyList xs)) = h"
  by (simp add: policy_apply_def)

lemma after_add_frame:
  "frame c x h (snd (after_add h c r (PyObj c)))"
  "frame c x h (snd (after_add h c r (PyList xs)))"
proof -
  show "frame c x h (snd (after_add h c r (PyObj c)))"
  proof (cases "retention (objs h c)")
    case None
    then show ?thesis by (simp add: after_add_def frame_refl)
  next
    case (Some p)
    then have "snd (after_add h c r (PyObj c)) = snd (policy_apply h p (PyObj c))"
      by (simp add: after_add_def split: prod.splits sum.splits)
    then show ?thesis by (simp add: policy_apply_frame)
  qed
  show "frame c x h (snd (after_add h c r (PyList xs)))"
    by (simp add: after_add_def policy_apply_def frame_refl split: option.splits)
qed

lemma compose_frame: "frame c x h (snd (compose E h c x))"
proof (cases "kobject_add E h c x")
  case (Pair r h1)
  then have f1: "frame c x h h1"
    using kobject_add_frame [of c x h E] by simp
  show ?thesis
  proof (cases r)
    case (Inl e)
    with Pair f1 show ?thesis by (simp add: compose_def)
  next
    case (Inr res)
    have "frame c x h (snd (after_add h1 c res (PyObj c)))"
      "frame c x h (snd (after_add h1 c res (PyList (children_of h1 c))))"
      by (rule frame_trans [OF f1 after_add_frame(1)], rule frame_trans [OF f1 after_add_frame(2)])
    with Pair Inr f1 show ?thesis
      by (cases "kind (objs h c)") (simp_all add: compose_def)
  qed
qed

lemma kobject_sub_frame: "frame c x h (snd (kobject_sub E h c x))"
  by (simp add: kobject_sub_def Let_def frame_def set_children_def set_parent_def split: option.splits)


section \<open>Hashes and the attachment point\<close>

lemma frame_children_of: "frame c x h h' \<Longrightarrow> a \<noteq> c \<Longrightarrow> children_of h' a = children_of h a"
  by (simp add: frame_def children_of_def)

lemma frame_hash_input_other:
  assumes "frame c x h h'" "a \<noteq> c" "parent_id h' a = parent_id h a"
  shows "hash_input h' a = hash_input h a"
  using assms frame_children_of [OF assms(1,2)]
  by (simp add: hash_input_def children_ids_def layers_def frame_def Let_def split: kind.splits)

lemma frame_hash_input_top:
  assumes "frame c x h h'" "a \<noteq> c" "kind (objs h a) \<in> {Net, Layer, Matrix}"
  shows "hash_input h' a = hash_input h a"
  using assms frame_children_of [OF assms(1,2)]
  by (auto simp: hash_input_def children_ids_def layers_def frame_def Let_def)

lemma frame_hash_input_parent:
  assumes "frame c x h h'" "a \<noteq> c" "kind (objs h a) \<in> {Leaf, Branch, Tree, Node}"
    "parent_id h' a \<noteq> parent_id h a"
  shows "hash_input h' a \<noteq> hash_input h a"
  using assms frame_children_of [OF assms(1,2)]
  by (auto simp: hash_input_def children_ids_def frame_def Let_def)

lemma frame_shash_input_other:
  assumes "frame c x h h'" "a \<noteq> c"
  shows "shash_input h' a = shash_input h a"
proof (cases "kind (objs h a) = Net")
  case True
  then have "kind (objs h' a) = Net" using assms(1) by (simp add: frame_def)
  with True frame_hash_input_top [OF assms, simplified] show ?thesis
    by (simp add: shash_input_def)
next
  case False
  with assms(1) show ?thesis
    by (simp add: shash_input_def frame_def Let_def split: kind.splits)
qed

text \<open>
  Claim C7, as the code has it. Composition and decomposition are the operators that change
  a node's attachment point; let \<open>h'\<close> be the store after one of them, applied to a
  container \<open>c\<close> and the node \<open>n\<close>. The semantic hash of \<open>n\<close> is unchanged. The
  structural hash of a Net, Layer or Matrix does not read the parent and is unchanged too.
  The structural hash of a Leaf, Branch, Tree or Node digests the parent's id (the text
  \<^verbatim>\<open>None\<close> without a parent): when that text changes, the digested string changes, and
  so does the hash under a digest without collisions.
\<close>

theorem reparenting_hashes:
  assumes "h' = snd (compose E h c n) \<or> h' = snd (kobject_sub E h c n)" and "n \<noteq> c"
  shows "shash H h' n = shash H h n \<and>
    (kind (objs h n) \<in> {Net, Layer, Matrix} \<longrightarrow> khash H h' n = khash H h n) \<and>
    (kind (objs h n) \<in> {Leaf, Branch, Tree, Node} \<and> parent_id h' n \<noteq> parent_id h n \<longrightarrow>
       hash_input h' n \<noteq> hash_input h n \<and> (inj H \<longrightarrow> khash H h' n \<noteq> khash H h n))"
proof -
  from assms(1) have f: "frame c n h h'"
    using compose_frame [of c n h E] kobject_sub_frame [of c n h E] by auto
  show ?thesis
    using frame_shash_input_other [OF f assms(2)] frame_hash_input_top [OF f assms(2)]
      frame_hash_input_parent [OF f assms(2)]
    by (auto simp: shash_def khash_def inj_eq)
qed


lemma inj_plain_digest: "inj plain_digest"
  by (simp add: inj_def plain_digest_def)

lemma leaf_detach_eval:
  "kind (objs (branch_store [1] 3 FORWARD SUPPRESS) 1) = Leaf"
  "parent_id (branch_store [1] 3 FORWARD SUPPRESS) 1 = ''b''"
  "parent_id (snd (kobject_sub by_class_and_id (branch_store [1] 3 FORWARD SUPPRESS) 0 1)) 1 = ''None''"
  by (simp_all add: kobject_sub_def op_eval store_eval)

theorem reparenting_hashes_witness:
  "kind (objs (branch_store [1] 3 FORWARD SUPPRESS) 1) \<in> {Leaf, Branch, Tree, Node} \<and>
   parent_id (snd (kobject_sub by_class_and_id (branch_store [1] 3 FORWARD SUPPRESS) 0 1)) 1
     \<noteq> parent_id (branch_store [1] 3 FORWARD SUPPRESS) 1 \<and>
   inj plain_digest \<and>
   khash plain_digest (snd (kobject_sub by_class_and_id (branch_store [1] 3 FORWARD SUPPRESS) 0 1)) 1
     \<noteq> khash plain_digest (branch_store [1] 3 FORWARD SUPPRESS) 1 \<and>
   shash plain_digest (snd (kobject_sub by_class_and_id (branch_store [1] 3 FORWARD SUPPRESS) 0 1)) 1
     = shash plain_digest (branch_store [1] 3 FORWARD SUPPRESS) 1 \<and>
   kind (objs (pair_store Matrix Layer) 1) \<in> {Net, Layer, Matrix} \<and>
   khash plain_digest (snd (compose by_class_and_id (pair_store Matrix Layer) 0 1)) 1
     = khash plain_digest (pair_store Matrix Layer) 1"
  using reparenting_hashes [of "snd (kobject_sub by_class_and_id (branch_store [1] 3 FORWARD SUPPRESS) 0 1)"
      by_class_and_id "branch_store [1] 3 FORWARD SUPPRESS" 0 1 plain_digest]
    reparenting_hashes [of "snd (compose by_class_and_id (pair_store Matrix Layer) 0 1)"
      by_class_and_id "pair_store Matrix Layer" 0 1 plain_digest]
  by (simp del: One_nat_def add: leaf_detach_eval inj_plain_digest pair_store_simps)

text \<open>
  The claim as stated fails for a Layer: a fresh Layer is composed into a Matrix, its
  parent changes from \<^verbatim>\<open>None\<close> to the Matrix, and its structural hash is what it was.
\<close>

theorem reparenting_counterexample:
  "kind (objs (pair_store Matrix Layer) 1) = Layer \<and>
   parent (objs (pair_store Matrix Layer) 1) = None \<and>
   fst (compose by_class_and_id (pair_store Matrix Layer) 0 1) = Inr 1 \<and>
   parent (objs (snd (compose by_class_and_id (pair_store Matrix Layer) 0 1)) 1) = Some 0 \<and>
   hash_input (snd (compose by_class_and_id (pair_store Matrix Layer) 0 1)) 1
     = hash_input (pair_store Matrix Layer) 1 \<and>
   khash plain_digest (snd (compose by_class_and_id (pair_store Matrix Layer) 0 1)) 1
     = khash plain_digest (pair_store Matrix Layer) 1"
  by (simp add: op_eval pair_store_def store_eval children_ids_def)

section \<open>Hashes and the children\<close>

lemma length_repr_str: "2 \<le> length (repr_str s)"
  by (simp add: repr_str_def Let_def)

lemma length_join:
  "length (join sep xs) = sum_list (map length xs) + length sep * (length xs - 1)"
  by (induction sep xs rule: join.induct) auto

lemma length_str_list:
  "length (str_list xs) = 2 + sum_list (map (\<lambda>x. length (repr_str x)) xs) + 2 * (length xs - 1)"
  by (simp add: str_list_def length_join comp_def)

lemma str_list_insert_neq: "str_list (as @ e # bs) \<noteq> str_list (as @ bs)"
proof -
  have "length (str_list (as @ bs)) < length (str_list (as @ e # bs))"
    using length_repr_str [of e] by (simp add: length_str_list)
  then show ?thesis by auto
qed

lemma hash_input_children_differ:
  assumes st: "\<And>a. kind (objs h' a) = kind (objs h a)" "\<And>a. id_str (objs h' a) = id_str (objs h a)"
    and dn: "data (objs h' c) = data (objs h c)" "name (objs h' c) = name (objs h c)"
    and pa: "parent (objs h' c) = parent (objs h c)"
    and ch: "children_of h' c = as @ e # bs" "children_of h c = as @ bs"
    and k: "kind (objs h c) \<noteq> Leaf"
    and m: "kind (objs h c) = Matrix \<Longrightarrow> kind (objs h e) = Layer"
  shows "hash_input h' c \<noteq> hash_input h c"
proof -
  let ?f = "\<lambda>a. id_str (objs h a)"
  have pid: "parent_id h' c = parent_id h c"
    using pa st(2) by (simp add: parent_id_def split: option.splits)
  have ids: "children_ids h' c = map ?f as @ ?f e # map ?f bs" "children_ids h c = map ?f as @ map ?f bs"
    using ch st(2) by (simp_all add: children_ids_def)
  have ne: "str_list (children_ids h' c) \<noteq> str_list (children_ids h c)"
    unfolding ids by (rule str_list_insert_neq)
  show ?thesis
  proof (cases "kind (objs h c) = Matrix")
    case True
    let ?P = "\<lambda>a. kind (objs h a) = Layer"
    have "map (\<lambda>a. id_str (objs h' a)) (layers h' c) = map ?f (filter ?P as) @ ?f e # map ?f (filter ?P bs)"
      "map ?f (layers h c) = map ?f (filter ?P as) @ map ?f (filter ?P bs)"
      using ch st m [OF True] by (simp_all add: layers_def)
    then have "str_list (map (\<lambda>a. id_str (objs h' a)) (layers h' c)) \<noteq> str_list (map ?f (layers h c))"
      by (simp add: str_list_insert_neq)
    with True st(1) dn show ?thesis
      by (simp add: hash_input_def Let_def)
  next
    case False
    with k st(1) dn pid ne show ?thesis
      by (cases "kind (objs h c)") (simp_all add: hash_input_def Let_def)
  qed
qed

lemma py_remove_splits:
  "py_remove E h x cs = Some cs' \<Longrightarrow> \<exists>as e bs. cs = as @ e # bs \<and> cs' = as @ bs"
proof (induction cs arbitrary: cs')
  case Nil
  then show ?case by simp
next
  case (Cons c cs)
  show ?case
  proof (cases "py_eq E h c x")
    case True
    with Cons.prems have "c # cs = [] @ c # cs \<and> cs' = [] @ cs" by simp
    then show ?thesis by blast
  next
    case False
    with Cons.prems obtain ds where ds: "py_remove E h x cs = Some ds" "cs' = c # ds"
      by auto
    from Cons.IH [OF ds(1)] obtain as e bs where "cs = as @ e # bs" "ds = as @ bs" by blast
    with ds(2) have "c # cs = (c # as) @ e # bs \<and> cs' = (c # as) @ bs" by simp
    then show ?thesis by blast
  qed
qed

lemma kobject_sub_splits:
  assumes "kobject_sub E h c x = (Inr r, h')" "parent (objs h x) = Some c"
  shows "\<exists>as e bs. children_of h c = as @ e # bs \<and> children_of h' c = as @ bs"
proof -
  from assms obtain cs' where r: "py_remove E (set_parent x None h) x (children_of h c) = Some cs'"
    and h': "h' = set_children c cs' (set_parent x None h)"
    by (auto simp: kobject_sub_def Let_def split: option.splits)
  from py_remove_splits [OF r] h' show ?thesis by auto
qed

lemma compose_type_error:
  "kind (objs h x) \<notin> set (allowed_children (kind (objs h c))) \<Longrightarrow> snd (compose E h c x) = h"
  by (simp add: compose_def kobject_add_def allowed_children_nonempty)

lemma frame_shash_input_self:
  "frame c x h h' \<Longrightarrow> kind (objs h c) \<noteq> Net \<Longrightarrow> shash_input h' c = shash_input h c"
  by (simp add: shash_input_def frame_def Let_def split: kind.splits)

lemma frame_shash_input_net:
  "frame c x h h' \<Longrightarrow> kind (objs h c) = Net \<Longrightarrow>
     shash_input h' c = hash_input h' c \<and> shash_input h c = hash_input h c"
  by (simp add: shash_input_def frame_def Let_def)

lemma compose_hash_changes:
  assumes k: "kind (objs h c) \<noteq> Leaf"
    and h': "h' = snd (compose E h c x)" and app: "children_of h' c = children_of h c @ [x]"
  shows "hash_input h' c \<noteq> hash_input h c \<and>
    (kind (objs h c) \<noteq> Net \<longrightarrow> shash_input h' c = shash_input h c) \<and>
    (kind (objs h c) = Net \<longrightarrow> shash_input h' c \<noteq> shash_input h c)"
proof -
  have f: "frame c x h h'" using h' compose_frame by simp
  have al: "kind (objs h x) \<in> set (allowed_children (kind (objs h c)))"
  proof (rule ccontr)
    assume "kind (objs h x) \<notin> set (allowed_children (kind (objs h c)))"
    then have "h' = h" using compose_type_error [of h x c E] h' by simp
    with app show False by simp
  qed
  with k have ne: "c \<noteq> x" by (cases "kind (objs h c)") auto
  from al have m: "kind (objs h c) = Matrix \<Longrightarrow> kind (objs h x) = Layer" by simp
  have d: "hash_input h' c \<noteq> hash_input h c"
    using f ne k m app
    by (intro hash_input_children_differ [where as = "children_of h c" and e = x and bs = "[]"])
      (simp_all add: frame_def)
  show ?thesis
    using d frame_shash_input_self [OF f] frame_shash_input_net [OF f] by auto
qed

lemma sub_hash_changes:
  assumes k: "kind (objs h c) \<noteq> Leaf"
    and s: "kobject_sub E h c x = (Inr r, h')" and p: "parent (objs h x) = Some c" and ne: "x \<noteq> c"
    and ty: "\<forall>y\<in>set (children_of h c). kind (objs h y) \<in> set (allowed_children (kind (objs h c)))"
  shows "hash_input h' c \<noteq> hash_input h c \<and>
    (kind (objs h c) \<noteq> Net \<longrightarrow> shash_input h' c = shash_input h c) \<and>
    (kind (objs h c) = Net \<longrightarrow> shash_input h' c \<noteq> shash_input h c)"
proof -
  have f: "frame c x h h'" using s kobject_sub_frame [of c x h E] by simp
  from kobject_sub_splits [OF s p] obtain as e bs
    where sp: "children_of h c = as @ e # bs" "children_of h' c = as @ bs" by blast
  from ty sp(1) have "kind (objs h e) \<in> set (allowed_children (kind (objs h c)))" by simp
  then have m: "kind (objs h c) = Matrix \<Longrightarrow> kind (objs h' e) = Layer"
    using f by (simp add: frame_def)
  have "hash_input h c \<noteq> hash_input h' c"
    using f ne k m sp
    by (intro hash_input_children_differ [where as = as and e = e and bs = bs])
      (simp_all add: frame_def)
  then have d: "hash_input h' c \<noteq> hash_input h c" by simp
  show ?thesis
    using d frame_shash_input_self [OF f] frame_shash_input_net [OF f] by auto
qed

text \<open>
  Claim C6, as the code has it. For a container \<open>c\<close> of any class but Leaf: when a
  composition appends the child \<open>x\<close> to the children of \<open>c\<close>, or a decomposition
  removes the attached child \<open>x\<close> (the children being of the allowed class), the string
  digested by the structural hash of \<open>c\<close> changes, so the hash changes under a digest
  without collisions. The semantic hash of a Branch, Tree, Node, Layer or Matrix does not
  change. The semantic hash of a Net is its structural hash: it changes as well.
\<close>

theorem child_change_hashes:
  "(kind (objs h c) \<noteq> Leaf \<and> h' = snd (compose E h c x) \<and>
      children_of h' c = children_of h c @ [x] \<longrightarrow>
        hash_input h' c \<noteq> hash_input h c \<and> (inj H \<longrightarrow> khash H h' c \<noteq> khash H h c) \<and>
        (kind (objs h c) \<noteq> Net \<longrightarrow> shash H h' c = shash H h c) \<and>
        (kind (objs h c) = Net \<longrightarrow>
           shash_input h' c \<noteq> shash_input h c \<and> (inj H \<longrightarrow> shash H h' c \<noteq> shash H h c))) \<and>
   (kind (objs h c) \<noteq> Leaf \<and> h' = snd (kobject_sub E h c x) \<and>
      fst (kobject_sub E h c x) = Inr x \<and> parent (objs h x) = Some c \<and> x \<noteq> c \<and>
      (\<forall>y\<in>set (children_of h c). kind (objs h y) \<in> set (allowed_children (kind (objs h c)))) \<longrightarrow>
        hash_input h' c \<noteq> hash_input h c \<and> (inj H \<longrightarrow> khash H h' c \<noteq> khash H h c) \<and>
        (kind (objs h c) \<noteq> Net \<longrightarrow> shash H h' c = shash H h c) \<and>
        (kind (objs h c) = Net \<longrightarrow>
           shash_input h' c \<noteq> shash_input h c \<and> (inj H \<longrightarrow> shash H h' c \<noteq> shash H h c))) \<and>
   (kind (objs h c) = Net \<longrightarrow> shash H h c = khash H h c)"
proof (intro conjI impI)
  assume a: "kind (objs h c) \<noteq> Leaf \<and> h' = snd (compose E h c x) \<and>
      children_of h' c = children_of h c @ [x]"
  then have r: "hash_input h' c \<noteq> hash_input h c \<and>
    (kind (objs h c) \<noteq> Net \<longrightarrow> shash_input h' c = shash_input h c) \<and>
    (kind (objs h c) = Net \<longrightarrow> shash_input h' c \<noteq> shash_input h c)"
    using compose_hash_changes [of h c h' E x] by blast
  from r show "hash_input h' c \<noteq> hash_input h c" by simp
  from r show "inj H \<Longrightarrow> khash H h' c \<noteq> khash H h c" by (simp add: khash_def inj_eq)
  from r show "kind (objs h c) \<noteq> Net \<Longrightarrow> shash H h' c = shash H h c" by (simp add: shash_def)
  from r show "kind (objs h c) = Net \<Longrightarrow> shash_input h' c \<noteq> shash_input h c" by simp
  from r show "kind (objs h c) = Net \<Longrightarrow> inj H \<Longrightarrow> shash H h' c \<noteq> shash H h c"
    by (simp add: shash_def inj_eq)
next
  assume a: "kind (objs h c) \<noteq> Leaf \<and> h' = snd (kobject_sub E h c x) \<and>
      fst (kobject_sub E h c x) = Inr x \<and> parent (objs h x) = Some c \<and> x \<noteq> c \<and>
      (\<forall>y\<in>set (children_of h c). kind (objs h y) \<in> set (allowed_children (kind (objs h c))))"
  then have "kobject_sub E h c x = (Inr x, h')"
    by (simp add: prod_eq_iff)
  with a have r: "hash_input h' c \<noteq> hash_input h c \<and>
    (kind (objs h c) \<noteq> Net \<longrightarrow> shash_input h' c = shash_input h c) \<and>
    (kind (objs h c) = Net \<longrightarrow> shash_input h' c \<noteq> shash_input h c)"
    using sub_hash_changes [of h c E x x h'] by blast
  from r show "hash_input h' c \<noteq> hash_input h c" by simp
  from r show "inj H \<Longrightarrow> khash H h' c \<noteq> khash H h c" by (simp add: khash_def inj_eq)
  from r show "kind (objs h c) \<noteq> Net \<Longrightarrow> shash H h' c = shash H h c" by (simp add: shash_def)
  from r show "kind (objs h c) = Net \<Longrightarrow> shash_input h' c \<noteq> shash_input h c" by simp
  from r show "kind (objs h c) = Net \<Longrightarrow> inj H \<Longrightarrow> shash H h' c \<noteq> shash H h c"
    by (simp add: shash_def inj_eq)
next
  assume "kind (objs h c) = Net"
  then show "shash H h c = khash H h c"
    by (simp add: shash_def khash_def shash_input_def)
qed

lemma branch_add_eval:
  "children_of (snd (compose by_class_and_id (branch_store [1] 3 FORWARD SUPPRESS) 0 2)) 0 = [1, 2]"
  "fst (kobject_sub by_class_and_id (branch_store [1, 2] 3 FORWARD SUPPRESS) 0 2) = Inr 2"
  "parent (objs (branch_store [1, 2] 3 FORWARD SUPPRESS) 2) = Some 0"
  "kind (objs (branch_store cs m f n) 0) = Branch"
  "kind (objs (branch_store cs m f n) 1) = Leaf"
  "kind (objs (branch_store cs m f n) 2) = Leaf"
  by (simp_all add: kobject_sub_def op_eval store_eval)

lemma net_change_eval:
  "children_of (snd (compose by_class_and_id (pair_store Net Node) 0 1)) 0 = [1]"
  "fst (kobject_sub by_class_and_id (attached_pair_store Net Node) 0 1) = Inr 1"
  "parent (objs (attached_pair_store Net Node) 1) = Some 0"
  "children_of (attached_pair_store Net Node) 0 = [1]"
  "kind (objs (attached_pair_store k k') 0) = k"
  "kind (objs (attached_pair_store k k') 1) = k'"
  by (simp_all add: kobject_sub_def op_eval store_eval pair_store_def attached_pair_store_def)

theorem child_change_hashes_witness:
  "kind (objs (branch_store [1] 3 FORWARD SUPPRESS) 0) \<noteq> Leaf \<and>
   kind (objs (branch_store [1] 3 FORWARD SUPPRESS) 0) \<noteq> Net \<and>
   children_of (snd (compose by_class_and_id (branch_store [1] 3 FORWARD SUPPRESS) 0 2)) 0
     = children_of (branch_store [1] 3 FORWARD SUPPRESS) 0 @ [2] \<and>
   inj plain_digest \<and>
   khash plain_digest (snd (compose by_class_and_id (branch_store [1] 3 FORWARD SUPPRESS) 0 2)) 0
     \<noteq> khash plain_digest (branch_store [1] 3 FORWARD SUPPRESS) 0 \<and>
   shash plain_digest (snd (compose by_class_and_id (branch_store [1] 3 FORWARD SUPPRESS) 0 2)) 0
     = shash plain_digest (branch_store [1] 3 FORWARD SUPPRESS) 0 \<and>
   fst (kobject_sub by_class_and_id (branch_store [1, 2] 3 FORWARD SUPPRESS) 0 2) = Inr 2 \<and>
   parent (objs (branch_store [1, 2] 3 FORWARD SUPPRESS) 2) = Some 0 \<and>
   khash plain_digest (snd (kobject_sub by_class_and_id (branch_store [1, 2] 3 FORWARD SUPPRESS) 0 2)) 0
     \<noteq> khash plain_digest (branch_store [1, 2] 3 FORWARD SUPPRESS) 0 \<and>
   shash plain_digest (snd (kobject_sub by_class_and_id (branch_store [1, 2] 3 FORWARD SUPPRESS) 0 2)) 0
     = shash plain_digest (branch_store [1, 2] 3 FORWARD SUPPRESS) 0 \<and>
   kind (objs (pair_store Net Node) 0) = Net \<and>
   children_of (snd (compose by_class_and_id (pair_store Net Node) 0 1)) 0
     = children_of (pair_store Net Node) 0 @ [1] \<and>
   khash plain_digest (snd (compose by_class_and_id (pair_store Net Node) 0 1)) 0
     \<noteq> khash plain_digest (pair_store Net Node) 0 \<and>
   shash plain_digest (snd (compose by_class_and_id (pair_store Net Node) 0 1)) 0
     \<noteq> shash plain_digest (pair_store Net Node) 0 \<and>
   kind (objs (attached_pair_store Net Node) 0) = Net \<and>
   fst (kobject_sub by_class_and_id (attached_pair_store Net Node) 0 1) = Inr 1 \<and>
   parent (objs (attached_pair_store Net Node) 1) = Some 0 \<and>
   khash plain_digest (snd (kobject_sub by_class_and_id (attached_pair_store Net Node) 0 1)) 0
     \<noteq> khash plain_digest (attached_pair_store Net Node) 0 \<and>
   shash plain_digest (snd (kobject_sub by_class_and_id (attached_pair_store Net Node) 0 1)) 0
     \<noteq> shash plain_digest (attached_pair_store Net Node) 0 \<and>
   shash plain_digest (pair_store Net Node) 0 = khash plain_digest (pair_store Net Node) 0"
proof -
  have a: "khash plain_digest (snd (compose by_class_and_id (branch_store [1] 3 FORWARD SUPPRESS) 0 2)) 0
      \<noteq> khash plain_digest (branch_store [1] 3 FORWARD SUPPRESS) 0 \<and>
    shash plain_digest (snd (compose by_class_and_id (branch_store [1] 3 FORWARD SUPPRESS) 0 2)) 0
      = shash plain_digest (branch_store [1] 3 FORWARD SUPPRESS) 0"
    using child_change_hashes [THEN conjunct1, of "branch_store [1] 3 FORWARD SUPPRESS" 0
      "snd (compose by_class_and_id (branch_store [1] 3 FORWARD SUPPRESS) 0 2)" by_class_and_id 2
      plain_digest]
    by (simp del: One_nat_def add: branch_add_eval branch_store_simps inj_plain_digest)
  have b: "khash plain_digest (snd (kobject_sub by_class_and_id (branch_store [1, 2] 3 FORWARD SUPPRESS) 0 2)) 0
      \<noteq> khash plain_digest (branch_store [1, 2] 3 FORWARD SUPPRESS) 0 \<and>
    shash plain_digest (snd (kobject_sub by_class_and_id (branch_store [1, 2] 3 FORWARD SUPPRESS) 0 2)) 0
      = shash plain_digest (branch_store [1, 2] 3 FORWARD SUPPRESS) 0"
    using child_change_hashes [THEN conjunct2, THEN conjunct1,
      of "branch_store [1, 2] 3 FORWARD SUPPRESS" 0
      "snd (kobject_sub by_class_and_id (branch_store [1, 2] 3 FORWARD SUPPRESS) 0 2)"
      by_class_and_id 2 plain_digest]
    by (simp del: One_nat_def add: branch_add_eval branch_store_simps inj_plain_digest)
  have c: "khash plain_digest (snd (compose by_class_and_id (pair_store Net Node) 0 1)) 0
      \<noteq> khash plain_digest (pair_store Net Node) 0 \<and>
    shash plain_digest (snd (compose by_class_and_id (pair_store Net Node) 0 1)) 0
      \<noteq> shash plain_digest (pair_store Net Node) 0"
    using child_change_hashes [THEN conjunct1, of "pair_store Net Node" 0
      "snd (compose by_class_and_id (pair_store Net Node) 0 1)" by_class_and_id 1 plain_digest]
    by (simp del: One_nat_def add: net_change_eval pair_store_simps inj_plain_digest)
  have d: "khash plain_digest (snd (kobject_sub by_class_and_id (attached_pair_store Net Node) 0 1)) 0
      \<noteq> khash plain_digest (attached_pair_store Net Node) 0 \<and>
    shash plain_digest (snd (kobject_sub by_class_and_id (attached_pair_store Net Node) 0 1)) 0
      \<noteq> shash plain_digest (attached_pair_store Net Node) 0"
    using child_change_hashes [THEN conjunct2, THEN conjunct1, of "attached_pair_store Net Node" 0
      "snd (kobject_sub by_class_and_id (attached_pair_store Net Node) 0 1)" by_class_and_id 1
      plain_digest]
    by (simp del: One_nat_def add: net_change_eval inj_plain_digest)
  have e: "shash plain_digest (pair_store Net Node) 0 = khash plain_digest (pair_store Net Node) 0"
    using child_change_hashes [THEN conjunct2, THEN conjunct2, of "pair_store Net Node" 0
      plain_digest]
    by (simp add: pair_store_simps)
  have f: "kind (objs (branch_store [1] 3 FORWARD SUPPRESS) 0) \<noteq> Leaf"
    "kind (objs (branch_store [1] 3 FORWARD SUPPRESS) 0) \<noteq> Net"
    "children_of (snd (compose by_class_and_id (branch_store [1] 3 FORWARD SUPPRESS) 0 2)) 0
      = children_of (branch_store [1] 3 FORWARD SUPPRESS) 0 @ [2]"
    "fst (kobject_sub by_class_and_id (branch_store [1, 2] 3 FORWARD SUPPRESS) 0 2) = Inr 2"
    "parent (objs (branch_store [1, 2] 3 FORWARD SUPPRESS) 2) = Some 0"
    "kind (objs (pair_store Net Node) 0) = Net"
    "children_of (snd (compose by_class_and_id (pair_store Net Node) 0 1)) 0
      = children_of (pair_store Net Node) 0 @ [1]"
    "kind (objs (attached_pair_store Net Node) 0) = Net"
    "fst (kobject_sub by_class_and_id (attached_pair_store Net Node) 0 1) = Inr 1"
    "parent (objs (attached_pair_store Net Node) 1) = Some 0"
    by (simp_all del: One_nat_def add: branch_add_eval net_change_eval branch_store_simps
        pair_store_simps)
  from a b c d e f inj_plain_digest show ?thesis by blast
qed

text \<open>
  The claim as stated fails for a Net: a Node is composed into a Net without children, and
  the Net's semantic hash changes.
\<close>

theorem net_semantic_hash_counterexample:
  "kind (objs (pair_store Net Node) 0) = Net \<and>
   fst (compose by_class_and_id (pair_store Net Node) 0 1) = Inr 1 \<and>
   children_of (pair_store Net Node) 0 = [] \<and>
   children_of (snd (compose by_class_and_id (pair_store Net Node) 0 1)) 0 = [1] \<and>
   shash_input (snd (compose by_class_and_id (pair_store Net Node) 0 1)) 0
     \<noteq> shash_input (pair_store Net Node) 0 \<and>
   shash plain_digest (snd (compose by_class_and_id (pair_store Net Node) 0 1)) 0
     \<noteq> shash plain_digest (pair_store Net Node) 0"
  by (simp add: op_eval pair_store_def store_eval shash_def shash_input_def children_ids_def
      str_list_def repr_str_def)

section \<open>The traverser\<close>

















text \<open>The FIFO order of a graph is unique: two lists in FIFO order are the same list.\<close>

lemma fifo_order_unique:
  assumes "fifo_order nb s ys" "fifo_order nb s zs"
  shows "ys = zs"
proof -
  have pre: "k \<le> length ys \<Longrightarrow> k \<le> length zs \<Longrightarrow> take k ys = take k zs" for k
  proof (induction k)
    case 0
    then show ?case by simp
  next
    case (Suc k)
    then have "take k ys = take k zs" by simp
    moreover from Suc.prems assms have
      "take (Suc k) ys = take (Suc k) (first_visits {} (queue_history nb s (take k ys)))"
      "take (Suc k) zs = take (Suc k) (first_visits {} (queue_history nb s (take k zs)))"
      by (simp_all add: fifo_order_def)
    ultimately show ?case by simp
  qed
  have short: False if f: "fifo_order nb s us" "fifo_order nb s vs"
    and eq: "us = take (length us) vs" and lt: "length us < length vs" for us vs
  proof -
    from f(2) lt have "take (Suc (length us)) vs =
        take (Suc (length us)) (first_visits {} (queue_history nb s (take (length us) vs)))"
      by (simp add: fifo_order_def)
    with eq f(1) have "take (Suc (length us)) vs = take (Suc (length us)) us"
      by (simp add: fifo_order_def)
    then have "length (take (Suc (length us)) vs) = length (take (Suc (length us)) us)" by simp
    with lt show False by simp
  qed
  show ?thesis
  proof (cases "length ys = length zs")
    case True
    with pre [of "length ys"] show ?thesis by simp
  next
    case False
    then consider "length ys < length zs" | "length zs < length ys" by linarith
    then show ?thesis
    proof cases
      case 1
      with pre [of "length ys"] have "ys = take (length ys) zs" by simp
      with short [OF assms] 1 show ?thesis by blast
    next
      case 2
      with pre [of "length zs"] have "zs = take (length zs) ys" by simp
      with short [OF assms(2,1)] 2 show ?thesis by blast
    qed
  qed
qed












section \<open>The examples under the inherited equality\<close>

text \<open>
  Were \<^verbatim>\<open>KObject.__eq__\<close>, the comparison of structural hashes, the method in force,
  the examples above would run the same way: the abort example ends with the same error
  and children, and the eviction example with the same parent and children.
\<close>

lemma examples_with_kobject_eq:
  "fst (compose (kobject_eq plain_digest) (branch_store [1, 2, 3, 4] 3 FORWARD RAISE) 0 5)
     = Inl (ValueError_removed 2) \<and>
   children_of (snd (compose (kobject_eq plain_digest)
      (branch_store [1, 2, 3, 4] 3 FORWARD RAISE) 0 5)) 0 = [1, 2, 3] \<and>
   parent (objs (snd (compose (kobject_eq plain_digest) (snd (compose (kobject_eq plain_digest)
      (branch_store [] 1 FORWARD SUPPRESS) 0 1)) 0 2)) 2) = Some 0 \<and>
   children_of (snd (compose (kobject_eq plain_digest) (snd (compose (kobject_eq plain_digest)
      (branch_store [] 1 FORWARD SUPPRESS) 0 1)) 0 2)) 0 = [1] \<and>
   children_of (snd (compose (kobject_eq plain_digest) (pair_store Leaf Leaf) 0 1)) 0 = [1]"
  by (simp add: op_eval kobject_eq_def store_eval pair_store_def)

end
